theory Spec2Isabelle
  imports Main "HOL-Library.AList"
begin

section \<open>Values, environment and program state\<close>

text \<open>
  The program \<^verbatim>\<open>proj2_nps.py\<close> scrapes nps.gov through a JSON cache file and queries
  the MapQuest places API. Python strings are modelled as \<^typ>\<open>string\<close>, a character
  standing for a code point below 256. Python dictionaries are association lists in
  insertion order (\<^const>\<open>map_of\<close> reads a key, \<^const>\<open>AList.update\<close> is
  \<^verbatim>\<open>d[k] = v\<close>: it overwrites in place or appends). Floating point numbers of JSON
  documents and console output are not modelled.
\<close>

datatype json =
    JNull
  | JBool bool
  | JNum int
  | JStr string
  | JArr "json list"
  | JObj "(string \<times> json) list"

datatype error =
    AttributeError    \<comment> \<open>an attribute or method of \<^verbatim>\<open>None\<close> (or of a value without it)\<close>
  | TypeError         \<comment> \<open>\<^verbatim>\<open>str + None\<close>, indexing a value that is no container\<close>
  | KeyError          \<comment> \<open>a missing dictionary key\<close>
  | RequestException  \<comment> \<open>\<^verbatim>\<open>requests.get\<close> or \<^verbatim>\<open>response.json()\<close> raised\<close>

text \<open>One network request: the URL and the query parameters (empty for a plain GET).\<close>

datatype request = Request string "(string \<times> json) list"

text \<open>A parsed HTML document as BeautifulSoup exposes it: tags with their class tokens,
  their other attributes and their children, and text nodes.\<close>

datatype node =
    Tag string "string list" "(string \<times> string) list" "node list"
  | NavigableString string

text \<open>
  The libraries the program calls are parameters: \<^verbatim>\<open>json.dumps\<close>, \<^verbatim>\<open>json.loads\<close>
  (\<open>None\<close> when it raises), the HTML parser \<^verbatim>\<open>BeautifulSoup(_, 'html.parser')\<close>
  and the credential \<^verbatim>\<open>secrets.API_KEY\<close>.
\<close>

record lib =
  dumps :: "json \<Rightarrow> string"
  loads :: "string \<Rightarrow> json option"
  BeautifulSoup :: "string \<Rightarrow> node"
  API_KEY :: string

text \<open>
  The network as the program sees it during one call: \<open>http_get url\<close> is
  \<^verbatim>\<open>requests.get(url).text\<close> and \<open>api_get url params\<close> is
  \<^verbatim>\<open>requests.get(url, params=params).json()\<close>; \<open>None\<close> when the call raises.
\<close>

record net =
  http_get :: "string \<Rightarrow> string option"
  api_get :: "string \<Rightarrow> (string \<times> json) list \<Rightarrow> json option"

text \<open>
  The state the program reads and writes: the contents of the file \<^verbatim>\<open>nps_cache.json\<close>
  (\<open>None\<close> when the file does not exist), the module-level dictionary
  \<^verbatim>\<open>CACHE_DICT\<close>, and two logs kept for the statements below: the network requests
  issued so far and the number of times \<^verbatim>\<open>save_cache\<close> has written the file.
\<close>

record state =
  cache_file :: "string option"
  CACHE_DICT :: "(string \<times> json) list"
  requests :: "request list"
  saves :: nat

definition BASEURL :: string where
  "BASEURL = ''https://www.nps.gov''"

text \<open>A process that has just started: the module body has run \<^verbatim>\<open>CACHE_DICT = {}\<close>.\<close>

definition fresh_process :: "string option \<Rightarrow> state" where
  "fresh_process f = \<lparr>cache_file = f, CACHE_DICT = [], requests = [], saves = 0\<rparr>"

section \<open>The cache store\<close>

text \<open>\<^verbatim>\<open>open_cache\<close>: any exception (no file, invalid JSON) gives the empty dictionary.\<close>

definition open_cache :: "lib \<Rightarrow> state \<Rightarrow> json" where
  "open_cache L s =
     (case cache_file s of
        None \<Rightarrow> JObj []
      | Some cache_contents \<Rightarrow>
          (case loads L cache_contents of
             None \<Rightarrow> JObj []
           | Some cache_dict \<Rightarrow> cache_dict))"

text \<open>\<^verbatim>\<open>save_cache\<close>: the file is opened with mode \<^verbatim>\<open>"w"\<close>, so its old contents are gone.\<close>

definition save_cache :: "lib \<Rightarrow> json \<Rightarrow> state \<Rightarrow> state" where
  "save_cache L cache_dict s =
     s\<lparr>cache_file := Some (dumps L cache_dict), saves := Suc (saves s)\<rparr>"

text \<open>
  \<^verbatim>\<open>make_request_with_cache\<close>. The assignment \<^verbatim>\<open>CACHE_DICT = open_cache()\<close> has no
  \<^verbatim>\<open>global\<close> declaration, so it binds a local variable: the module-level dictionary
  of the state is neither read nor written. A loaded document that is no JSON object has
  no \<^verbatim>\<open>keys()\<close>.
\<close>

definition make_request_with_cache ::
  "lib \<Rightarrow> net \<Rightarrow> string \<Rightarrow> state \<Rightarrow> (error + json) \<times> state" where
  "make_request_with_cache L N baseurl s =
     (case open_cache L s of
        JObj local_dict \<Rightarrow>
          (case map_of local_dict baseurl of
             Some v \<Rightarrow> (Inr v, s)
           | None \<Rightarrow>
               (let s1 = s\<lparr>requests := requests s @ [Request baseurl []]\<rparr> in
                case http_get N baseurl of
                  None \<Rightarrow> (Inl RequestException, s1)
                | Some text \<Rightarrow>
                    (let local_dict' = AList.update baseurl (JStr text) local_dict
                     in (Inr (JStr text), save_cache L (JObj local_dict') s1))))
      | _ \<Rightarrow> (Inl AttributeError, s))"

text \<open>\<^verbatim>\<open>make_request\<close>: no caching.\<close>

definition make_request ::
  "net \<Rightarrow> string \<Rightarrow> (string \<times> json) list \<Rightarrow> state \<Rightarrow> (error + json) \<times> state" where
  "make_request N baseurl params s =
     (let s1 = s\<lparr>requests := requests s @ [Request baseurl params]\<rparr> in
      case api_get N baseurl params of
        None \<Rightarrow> (Inl RequestException, s1)
      | Some response \<Rightarrow> (Inr response, s1))"

record NationalSite =
  category :: string
  name :: string
  address :: string
  zipcode :: string
  phone :: string

text \<open>
  \<^verbatim>\<open>get_nearby_places\<close> reads and writes the module-level \<^verbatim>\<open>CACHE_DICT\<close> and saves
  that dictionary, whatever the file held.
\<close>

definition nearby_url :: string where
  "nearby_url = ''http://www.mapquestapi.com/search/v2/radius''"

definition nearby_params :: "lib \<Rightarrow> NationalSite \<Rightarrow> (string \<times> json) list" where
  "nearby_params L site_object =
     [(''key'', JStr (API_KEY L)),
      (''origin'', JStr (zipcode site_object)),
      (''radius'', JNum 10),
      (''maxMatches'', JNum 10),
      (''ambiguities'', JStr ''ignore''),
      (''outFormat'', JStr ''json'')]"

definition get_nearby_places ::
  "lib \<Rightarrow> net \<Rightarrow> NationalSite \<Rightarrow> state \<Rightarrow> (error + json) \<times> state" where
  "get_nearby_places L N site_object s =
     (let unique_key = zipcode site_object in
      case map_of (CACHE_DICT s) unique_key of
        Some v \<Rightarrow> (Inr v, s)
      | None \<Rightarrow>
          (case make_request N nearby_url (nearby_params L site_object) s of
             (Inl e, s1) \<Rightarrow> (Inl e, s1)
           | (Inr response, s1) \<Rightarrow>
               (let s2 = s1\<lparr>CACHE_DICT := AList.update unique_key response (CACHE_DICT s1)\<rparr>
                in (Inr response, save_cache L (JObj (CACHE_DICT s2)) s2))))"

section \<open>Strings\<close>

text \<open>
  \<^verbatim>\<open>str.strip()\<close> removes the white space of Python at both ends; below code point 256
  these are the characters 9 to 13, 28 to 32, 133 and 160.
\<close>

definition isspace :: "char \<Rightarrow> bool" where
  "isspace c =
     (let n = (of_char c :: nat)
      in (9 \<le> n \<and> n \<le> 13) \<or> (28 \<le> n \<and> n \<le> 32) \<or> n = 133 \<or> n = 160)"

definition strip :: "string \<Rightarrow> string" where
  "strip s = rev (dropWhile isspace (rev (dropWhile isspace s)))"

text \<open>
  \<^verbatim>\<open>str.lower()\<close> below code point 256: the letters A to Z and the upper-case letters
  of Latin-1 (192 to 222 without the multiplication sign 215) move up by 32.
\<close>

definition lower_char :: "char \<Rightarrow> char" where
  "lower_char c =
     (let n = (of_char c :: nat)
      in if (65 \<le> n \<and> n \<le> 90) \<or> (192 \<le> n \<and> n \<le> 222 \<and> n \<noteq> 215)
         then char_of (n + 32) else c)"

definition lower :: "string \<Rightarrow> string" where
  "lower s = map lower_char s"

section \<open>The parsed document\<close>

text \<open>
  The queries of BeautifulSoup the program uses. \<^verbatim>\<open>find\<close> and \<^verbatim>\<open>find_all\<close> search the
  descendants of a tag in document order, the tag itself excluded.
\<close>

fun descendants :: "node \<Rightarrow> node list" where
  "descendants (Tag n cls attrs cs) = concat (map (\<lambda>c. c # descendants c) cs)"
| "descendants (NavigableString t) = []"

definition find_first :: "(node \<Rightarrow> bool) \<Rightarrow> node \<Rightarrow> node option" where
  "find_first p n = List.find p (descendants n)"

definition find_all :: "(node \<Rightarrow> bool) \<Rightarrow> node \<Rightarrow> node list" where
  "find_all p n = filter p (descendants n)"

fun has_name :: "string \<Rightarrow> node \<Rightarrow> bool" where
  "has_name x (Tag n cls attrs cs) = (n = x)"
| "has_name x (NavigableString t) = False"

fun join_words :: "string list \<Rightarrow> string" where
  "join_words [] = []"
| "join_words [w] = w"
| "join_words (w # ws) = w @ '' '' @ join_words ws"

text \<open>\<^verbatim>\<open>class_=x\<close> matches a tag when one of its class tokens is \<open>x\<close>, or when its
  tokens joined by single spaces are \<open>x\<close>.\<close>

fun has_class :: "string \<Rightarrow> node \<Rightarrow> bool" where
  "has_class x (Tag n cls attrs cs) = (x \<in> set cls \<or> join_words cls = x)"
| "has_class x (NavigableString t) = False"

fun get_attr :: "string \<Rightarrow> node \<Rightarrow> string option" where
  "get_attr k (Tag n cls attrs cs) = map_of attrs k"
| "get_attr k (NavigableString t) = None"

definition has_attr :: "string \<Rightarrow> string \<Rightarrow> node \<Rightarrow> bool" where
  "has_attr k v n = (get_attr k n = Some v)"

text \<open>\<^verbatim>\<open>.text\<close>: all the text below a node, concatenated.\<close>

fun get_text :: "node \<Rightarrow> string" where
  "get_text (NavigableString t) = t"
| "get_text (Tag n cls attrs cs) = concat (map get_text cs)"

text \<open>\<^verbatim>\<open>.string\<close>: the text of a tag whose only child is a text node, or a tag with
  such a \<^verbatim>\<open>.string\<close>; \<^verbatim>\<open>None\<close> otherwise.\<close>

fun node_string :: "node \<Rightarrow> string option" where
  "node_string (NavigableString t) = Some t"
| "node_string (Tag n cls attrs [c]) = node_string c"
| "node_string (Tag n cls attrs cs) = None"

text \<open>\<^verbatim>\<open>r.find(...).text\<close> where \<open>r\<close> is itself the result of a \<^verbatim>\<open>find\<close>: an attribute
  of \<^verbatim>\<open>None\<close> raises.\<close>

definition find_text :: "(node \<Rightarrow> bool) \<Rightarrow> node option \<Rightarrow> error + string" where
  "find_text p r =
     (case r of
        None \<Rightarrow> Inl AttributeError
      | Some t \<Rightarrow>
          (case find_first p t of
             None \<Rightarrow> Inl AttributeError
           | Some x \<Rightarrow> Inr (get_text x)))"

section \<open>Site extraction\<close>

text \<open>
  Lines 181 to 195 of \<^verbatim>\<open>get_site_instance\<close>, on the parsed page. Only the category is
  inside a \<^verbatim>\<open>try\<close>; the other four fields are read in the order name, address, zipcode,
  phone, and the first that is missing raises.
\<close>

definition site_of_soup :: "node \<Rightarrow> error + NationalSite" where
  "site_of_soup soup =
     (let header = find_first (has_class ''Hero-titleContainer clearfix'') soup;
          footer = find_first (has_class ''vcard'') soup;
          designation =
            (case find_text (has_class ''Hero-designation'') header of
               Inl e \<Rightarrow> ''No category''
             | Inr t \<Rightarrow> strip t)
      in case find_text (has_class ''Hero-title'') header of
           Inl e \<Rightarrow> Inl e
         | Inr title \<Rightarrow>
        (case find_text (has_attr ''itemprop'' ''addressLocality'') footer of
           Inl e \<Rightarrow> Inl e
         | Inr locality \<Rightarrow>
        (case find_text (has_attr ''itemprop'' ''addressRegion'') footer of
           Inl e \<Rightarrow> Inl e
         | Inr region \<Rightarrow>
        (case find_text (has_class ''postal-code'') footer of
           Inl e \<Rightarrow> Inl e
         | Inr postal \<Rightarrow>
        (case find_text (has_class ''tel'') footer of
           Inl e \<Rightarrow> Inl e
         | Inr tel \<Rightarrow>
             Inr \<lparr>category = designation, name = strip title,
                  address = locality @ '', '' @ region,
                  zipcode = strip postal, phone = strip tel\<rparr>)))))"

definition get_site_instance ::
  "lib \<Rightarrow> net \<Rightarrow> string \<Rightarrow> state \<Rightarrow> (error + NationalSite) \<times> state" where
  "get_site_instance L N site_url s =
     (case make_request_with_cache L N site_url s of
        (Inl e, s1) \<Rightarrow> (Inl e, s1)
      | (Inr (JStr html), s1) \<Rightarrow> (site_of_soup (BeautifulSoup L html), s1)
      | (Inr _, s1) \<Rightarrow> (Inl TypeError, s1))"





section \<open>The region index\<close>

text \<open>The loop of \<^verbatim>\<open>build_state_url_dict\<close> over the links of the navigation list.\<close>

fun links_loop ::
  "node list \<Rightarrow> (string \<times> string) list \<Rightarrow> error + (string \<times> string) list" where
  "links_loop [] state_dict = Inr state_dict"
| "links_loop (link # links_list) state_dict =
     (case get_attr ''href'' link of
        None \<Rightarrow> Inl TypeError
      | Some state_url \<Rightarrow>
          (case node_string link of
             None \<Rightarrow> Inl AttributeError
           | Some text \<Rightarrow>
               links_loop links_list
                 (AList.update (lower text) (BASEURL @ state_url) state_dict)))"

definition search_links :: "node \<Rightarrow> error + node list" where
  "search_links soup =
     (case find_first (\<lambda>n. has_name ''ul'' n \<and> has_class ''dropdown-menu SearchBar-keywordSearch'' n)
             soup of
        None \<Rightarrow> Inl AttributeError
      | Some search_ul \<Rightarrow> Inr (find_all (has_name ''a'') search_ul))"

definition build_state_url_dict ::
  "lib \<Rightarrow> net \<Rightarrow> state \<Rightarrow> (error + (string \<times> string) list) \<times> state" where
  "build_state_url_dict L N s =
     (case make_request_with_cache L N (BASEURL @ ''/index.htm'') s of
        (Inl e, s1) \<Rightarrow> (Inl e, s1)
      | (Inr (JStr html), s1) \<Rightarrow>
          (case search_links (BeautifulSoup L html) of
             Inl e \<Rightarrow> (Inl e, s1)
           | Inr links_list \<Rightarrow> (links_loop links_list [], s1))
      | (Inr _, s1) \<Rightarrow> (Inl TypeError, s1))"

text \<open>Lines 273 and 277 of the interactive loop: the region is looked up by the
  lower-cased input.\<close>

definition lookup_state :: "(string \<times> string) list \<Rightarrow> string \<Rightarrow> string option" where
  "lookup_state state_dict state = map_of state_dict (lower state)"

section \<open>Nearby places, as the interactive loop shows them\<close>







section \<open>A reference JSON codec\<close>

text \<open>
  \<^verbatim>\<open>json.dumps\<close> with its default options, and \<^verbatim>\<open>json.loads\<close>, on documents without
  floating point numbers and on strings of code points below 256.
\<close>

definition hex_digit :: "nat \<Rightarrow> char" where
  "hex_digit n = ''0123456789abcdef'' ! (n mod 16)"

text \<open>\<^verbatim>\<open>ensure_ascii\<close>: the quote, the backslash and every character outside the
  printable ASCII range are escaped.\<close>

definition escape_char :: "char \<Rightarrow> string" where
  "escape_char c =
     (let n = (of_char c :: nat) in
      if n = 34 then [CHR 0x5C, CHR 0x22]
      else if n = 92 then [CHR 0x5C, CHR 0x5C]
      else if n = 8 then [CHR 0x5C, CHR ''b'']
      else if n = 12 then [CHR 0x5C, CHR ''f'']
      else if n = 10 then [CHR 0x5C, CHR ''n'']
      else if n = 13 then [CHR 0x5C, CHR ''r'']
      else if n = 9 then [CHR 0x5C, CHR ''t'']
      else if 32 \<le> n \<and> n \<le> 126 then [c]
      else [CHR 0x5C, CHR ''u'', CHR ''0'', CHR ''0'', hex_digit (n div 16), hex_digit n])"

definition encode_str :: "string \<Rightarrow> string" where
  "encode_str t = CHR 0x22 # concat (map escape_char t) @ [CHR 0x22]"

fun digits :: "nat \<Rightarrow> string" where
  "digits n = (if n < 10 then [char_of (48 + n)] else digits (n div 10) @ [char_of (48 + n mod 10)])"

definition encode_int :: "int \<Rightarrow> string" where
  "encode_int i = (if i < 0 then CHR ''-'' # digits (nat (- i)) else digits (nat i))"

fun join_items :: "string list \<Rightarrow> string" where
  "join_items [] = []"
| "join_items [x] = x"
| "join_items (x # xs) = x @ '', '' @ join_items xs"

fun py_dumps :: "json \<Rightarrow> string" where
  "py_dumps JNull = ''null''"
| "py_dumps (JBool b) = (if b then ''true'' else ''false'')"
| "py_dumps (JNum i) = encode_int i"
| "py_dumps (JStr t) = encode_str t"
| "py_dumps (JArr xs) = ''['' @ join_items (map py_dumps xs) @ '']''"
| "py_dumps (JObj d) =
     ''{'' @ join_items (map (\<lambda>kv. encode_str (fst kv) @ '': '' @ py_dumps (snd kv)) d) @ ''}''"


definition json_space :: "char \<Rightarrow> bool" where
  "json_space c = (c = CHR '' '' \<or> c = CHR 0x09 \<or> c = CHR 0x0A \<or> c = CHR 0x0D)"

definition skip_ws :: "string \<Rightarrow> string" where
  "skip_ws s = dropWhile json_space s"

definition hex_value :: "char \<Rightarrow> nat option" where
  "hex_value c =
     (let n = (of_char c :: nat) in
      if 48 \<le> n \<and> n \<le> 57 then Some (n - 48)
      else if 97 \<le> n \<and> n \<le> 102 then Some (n - 87)
      else if 65 \<le> n \<and> n \<le> 70 then Some (n - 55)
      else None)"

definition unescape :: "char \<Rightarrow> char option" where
  "unescape e =
     (if e = CHR 0x22 \<or> e = CHR 0x5C \<or> e = CHR ''/'' then Some e
      else if e = CHR ''b'' then Some (CHR 0x08)
      else if e = CHR ''f'' then Some (CHR 0x0C)
      else if e = CHR ''n'' then Some (CHR 0x0A)
      else if e = CHR ''r'' then Some (CHR 0x0D)
      else if e = CHR ''t'' then Some (CHR 0x09)
      else None)"

definition cons_result :: "char \<Rightarrow> (string \<times> string) option \<Rightarrow> (string \<times> string) option" where
  "cons_result c r = map_option (\<lambda>tr. (c # fst tr, snd tr)) r"

text \<open>The characters of a string literal after its opening quote, up to the closing one.\<close>

fun decode_str :: "string \<Rightarrow> (string \<times> string) option" where
  "decode_str [] = None"
| "decode_str (c # cs) =
     (if c = CHR 0x22 then Some ([], cs)
      else if c = CHR 0x5C then
        (case cs of
           [] \<Rightarrow> None
         | e # r \<Rightarrow>
             if e = CHR ''u'' then
               (case r of
                  a # b # x # y # r' \<Rightarrow>
                    (case (hex_value a, hex_value b, hex_value x, hex_value y) of
                       (Some ha, Some hb, Some hx, Some hy) \<Rightarrow>
                         if ha = 0 \<and> hb = 0
                         then cons_result (char_of (16 * hx + hy)) (decode_str r')
                         else None
                     | _ \<Rightarrow> None)
                | _ \<Rightarrow> None)
             else
               (case unescape e of
                  None \<Rightarrow> None
                | Some ch \<Rightarrow> cons_result ch (decode_str r)))
      else if (of_char c :: nat) < 32 then None
      else cons_result c (decode_str cs))"

definition is_digit :: "char \<Rightarrow> bool" where
  "is_digit c = (48 \<le> (of_char c :: nat) \<and> (of_char c :: nat) \<le> 57)"

definition digits_value :: "string \<Rightarrow> nat" where
  "digits_value ds = foldl (\<lambda>a c. 10 * a + (of_char c - 48)) 0 ds"

definition decode_int :: "string \<Rightarrow> (int \<times> string) option" where
  "decode_int s =
     (let neg = (case s of [] \<Rightarrow> False | c # r \<Rightarrow> c = CHR ''-'');
          r = (if neg then tl s else s);
          ds = (case r of [] \<Rightarrow> [] | c # r' \<Rightarrow> if c = CHR ''0'' then [c] else takeWhile is_digit r);
          rest = drop (length ds) r
      in if ds = [] then None
         else if (case rest of [] \<Rightarrow> False | c # r' \<Rightarrow> c = CHR ''.'' \<or> c = CHR ''e'' \<or> c = CHR ''E'')
         then None
         else Some (if neg then - int (digits_value ds) else int (digits_value ds), rest))"

definition expect :: "string \<Rightarrow> string \<Rightarrow> string option" where
  "expect w s = (if take (length w) s = w then Some (drop (length w) s) else None)"

fun decode_value :: "nat \<Rightarrow> string \<Rightarrow> (json \<times> string) option"
  and decode_items :: "nat \<Rightarrow> json list \<Rightarrow> string \<Rightarrow> (json list \<times> string) option"
  and decode_pairs ::
    "nat \<Rightarrow> (string \<times> json) list \<Rightarrow> string \<Rightarrow> ((string \<times> json) list \<times> string) option"
where
  "decode_value 0 s = None"
| "decode_value (Suc n) s =
     (case skip_ws s of
        [] \<Rightarrow> None
      | c # r \<Rightarrow>
          if c = CHR ''{'' then
            (case skip_ws r of
               [] \<Rightarrow> None
             | c' # r' \<Rightarrow>
                 if c' = CHR ''}'' then Some (JObj [], r')
                 else map_option (\<lambda>dr. (JObj (fst dr), snd dr)) (decode_pairs n [] r))
          else if c = CHR ''['' then
            (case skip_ws r of
               [] \<Rightarrow> None
             | c' # r' \<Rightarrow>
                 if c' = CHR '']'' then Some (JArr [], r')
                 else map_option (\<lambda>xr. (JArr (fst xr), snd xr)) (decode_items n [] r))
          else if c = CHR 0x22 then map_option (\<lambda>tr. (JStr (fst tr), snd tr)) (decode_str r)
          else if c = CHR ''n'' then map_option (\<lambda>r'. (JNull, r')) (expect ''ull'' r)
          else if c = CHR ''t'' then map_option (\<lambda>r'. (JBool True, r')) (expect ''rue'' r)
          else if c = CHR ''f'' then map_option (\<lambda>r'. (JBool False, r')) (expect ''alse'' r)
          else map_option (\<lambda>ir. (JNum (fst ir), snd ir)) (decode_int (c # r)))"
| "decode_items 0 acc s = None"
| "decode_items (Suc n) acc s =
     (case decode_value n s of
        None \<Rightarrow> None
      | Some (v, r) \<Rightarrow>
          (case skip_ws r of
             [] \<Rightarrow> None
           | c # r' \<Rightarrow>
               if c = CHR '','' then decode_items n (acc @ [v]) r'
               else if c = CHR '']'' then Some (acc @ [v], r')
               else None))"
| "decode_pairs 0 acc s = None"
| "decode_pairs (Suc n) acc s =
     (case skip_ws s of
        [] \<Rightarrow> None
      | q # r \<Rightarrow>
          if q \<noteq> CHR 0x22 then None
          else
            (case decode_str r of
               None \<Rightarrow> None
             | Some (k, r1) \<Rightarrow>
                 (case skip_ws r1 of
                    [] \<Rightarrow> None
                  | c # r2 \<Rightarrow>
                      if c \<noteq> CHR '':'' then None
                      else
                        (case decode_value n r2 of
                           None \<Rightarrow> None
                         | Some (v, r3) \<Rightarrow>
                             (case skip_ws r3 of
                                [] \<Rightarrow> None
                              | c' # r4 \<Rightarrow>
                                  if c' = CHR '','' then decode_pairs n (AList.update k v acc) r4
                                  else if c' = CHR ''}'' then Some (AList.update k v acc, r4)
                                  else None)))))"

definition py_loads :: "string \<Rightarrow> json option" where
  "py_loads t =
     (case decode_value (Suc (length t)) t of
        None \<Rightarrow> None
      | Some (v, r) \<Rightarrow> if skip_ws r = [] then Some v else None)"

text \<open>A document whose dictionaries have no repeated key, as every Python value has.\<close>

fun wf_json :: "json \<Rightarrow> bool" where
  "wf_json (JArr xs) = list_all wf_json xs"
| "wf_json (JObj d) = (distinct (map fst d) \<and> list_all (\<lambda>kv. wf_json (snd kv)) d)"
| "wf_json v = True"

text \<open>
  What the program needs of the JSON library: a document read back is the document
  written, and a document read has no repeated key.
\<close>

definition json_contract :: "lib \<Rightarrow> bool" where
  "json_contract L =
     ((\<forall>v. wf_json v \<longrightarrow> loads L (dumps L v) = Some v) \<and>
      (\<forall>t v. loads L t = Some v \<longrightarrow> wf_json v))"

definition python_lib :: "(string \<Rightarrow> node) \<Rightarrow> string \<Rightarrow> lib" where
  "python_lib parser key =
     \<lparr>dumps = py_dumps, loads = py_loads, BeautifulSoup = parser, API_KEY = key\<rparr>"

section \<open>Auxiliary notions for the statements and proofs\<close>

text \<open>What may follow a printed number: no digit, and nothing that would continue it as
  a floating point literal.\<close>

definition number_end :: "string \<Rightarrow> bool" where
  "number_end rest =
     (case rest of
        [] \<Rightarrow> True
      | c # r \<Rightarrow> \<not> is_digit c \<and> c \<noteq> CHR ''.'' \<and> c \<noteq> CHR ''e'' \<and> c \<noteq> CHR ''E'')"

text \<open>A document that \<^const>\<open>decode_value\<close> reads back from its printed text, whatever
  follows, given fuel for the length of the text.\<close>

definition decodes :: "json \<Rightarrow> bool" where
  "decodes v =
     (\<forall>n rest. length (py_dumps v) \<le> n \<longrightarrow> number_end rest \<longrightarrow>
        decode_value n (py_dumps v @ rest) = Some (v, rest))"

text \<open>One member of a printed object.\<close>

definition print_pair :: "string \<times> json \<Rightarrow> string" where
  "print_pair kv = encode_str (fst kv) @ '': '' @ py_dumps (snd kv)"

definition wf_pairs :: "(string \<times> json) list \<Rightarrow> bool" where
  "wf_pairs d = (distinct (map fst d) \<and> list_all (\<lambda>kv. wf_json (snd kv)) d)"

text \<open>A run of \<^verbatim>\<open>make_request_with_cache\<close> calls, whatever each call returns.\<close>


fun fetch_all :: "lib \<Rightarrow> net \<Rightarrow> string list \<Rightarrow> state \<Rightarrow> state" where
  "fetch_all L N [] s = s"
| "fetch_all L N (url # urls) s = fetch_all L N urls (snd (make_request_with_cache L N url s))"

text \<open>Fixtures for the closed instances: a parser that keeps the page as one text node,
  a network that is down, and a network that answers every request alike.\<close>

definition no_parser :: "string \<Rightarrow> node" where
  "no_parser html = Tag ''[document]'' [] [] [NavigableString html]"

definition offline :: net where
  "offline = \<lparr>http_get = (\<lambda>url. None), api_get = (\<lambda>url params. None)\<rparr>"

definition serving :: "string \<Rightarrow> json \<Rightarrow> net" where
  "serving body doc = \<lparr>http_get = (\<lambda>url. Some body), api_get = (\<lambda>url params. Some doc)\<rparr>"

definition isle_royale :: NationalSite where
  "isle_royale =
     \<lparr>category = ''National Park'', name = ''Isle Royale'', address = ''Houghton, MI'',
      zipcode = ''49931'', phone = ''(906) 482-0984''\<rparr>"

definition demo_lib :: lib where
  "demo_lib = python_lib no_parser ''key''"

text \<open>A block of the page lacks a marker: the block itself was not found, or nothing below
  it matches.\<close>

definition lacks :: "(node \<Rightarrow> bool) \<Rightarrow> node option \<Rightarrow> bool" where
  "lacks p block = (case block of None \<Rightarrow> True | Some t \<Rightarrow> find_first p t = None)"

text \<open>Fixture pages. A detail page with its header and contact blocks, the category,
  postal code and phone markers present or not.\<close>

definition marker :: "string \<Rightarrow> string option \<Rightarrow> node list" where
  "marker cls content =
     (case content of
        None \<Rightarrow> []
      | Some t \<Rightarrow> [Tag ''span'' [cls] [] [NavigableString t]])"

definition detail_page :: "string \<Rightarrow> string option \<Rightarrow> string option \<Rightarrow> string option \<Rightarrow> node" where
  "detail_page title designation postal tel =
     Tag ''[document]'' [] []
       [Tag ''div'' [''Hero-titleContainer'', ''clearfix''] []
          (Tag ''a'' [''Hero-title''] [(''href'', ''/'')] [NavigableString title]
           # marker ''Hero-designation'' designation),
        Tag ''div'' [''vcard''] []
          ([Tag ''span'' [] [(''itemprop'', ''addressLocality'')] [NavigableString ''Houghton''],
            Tag ''span'' [] [(''itemprop'', ''addressRegion'')] [NavigableString ''MI'']]
           @ marker ''postal-code'' postal @ marker ''tel'' tel)]"

definition heading :: "string \<Rightarrow> string \<Rightarrow> node" where
  "heading href title =
     Tag ''h3'' [] [] [Tag ''a'' [] [(''href'', href)] [NavigableString title]]"

definition region_page :: node where
  "region_page =
     Tag ''[document]'' [] []
       [Tag ''div'' [] [(''id'', ''list_parks'')]
          [Tag ''li'' [] [] [heading ''/isro/'' ''Isle Royale''],
           Tag ''li'' [] [] [heading ''/kewe/'' ''Keweenaw''],
           Tag ''li'' [] [] [heading ''/piro/'' ''Pictured Rocks'']]]"

definition index_page :: "(string \<times> string) list \<Rightarrow> node" where
  "index_page links =
     Tag ''[document]'' [] []
       [Tag ''ul'' [''dropdown-menu'', ''SearchBar-keywordSearch''] []
          (map (\<lambda>l. Tag ''li'' [] [] [Tag ''a'' [] [(''href'', snd l)] [NavigableString (fst l)]])
             links)]"

text \<open>The parser on the fixture pages, each page named by a short text.\<close>

definition fixture_parser :: "string \<Rightarrow> node" where
  "fixture_parser html =
     (if html = ''isro'' then
        detail_page '' Isle Royale '' (Some ''National Park'') (Some ''49931'') (Some ''(906) 482-0984'')
      else if html = ''kewe'' then
        detail_page ''Keweenaw'' (Some ''National Historical Park'') (Some ''49913'') (Some ''(906) 337-3168'')
      else if html = ''piro'' then
        detail_page ''Pictured Rocks'' (Some ''National Lakeshore'') (Some ''49862'') (Some ''(906) 387-3700'')
      else if html = ''no category'' then
        detail_page ''North Country'' None (Some ''49331'') (Some ''(616) 319-7906'')
      else if html = ''no postal code'' then
        detail_page ''Isle Royale'' (Some ''National Park'') None (Some ''(906) 482-0984'')
      else if html = ''no phone'' then
        detail_page ''Isle Royale'' (Some ''National Park'') (Some ''49931'') None
      else if html = ''michigan'' then region_page
      else if html = ''index'' then index_page [(''Michigan'', ''/state/mi/index.htm'')]
      else if html = ''index twice'' then
        index_page [(''Michigan'', ''/state/mi/index.htm''), (''MICHIGAN'', ''/state/xx/index.htm'')]
      else no_parser html)"

definition fixture_lib :: lib where
  "fixture_lib = python_lib fixture_parser ''key''"

text \<open>A network that serves the fixture pages.\<close>

definition fixture_net :: net where
  "fixture_net =
     \<lparr>http_get = (\<lambda>url.
        if url = ''https://www.nps.gov/state/mi/index.htm'' then Some ''michigan''
        else if url = ''https://www.nps.gov/isro/index.htm'' then Some ''isro''
        else if url = ''https://www.nps.gov/kewe/index.htm'' then Some ''kewe''
        else if url = ''https://www.nps.gov/piro/index.htm'' then Some ''piro''
        else if url = ''https://www.nps.gov/index.htm'' then Some ''index''
        else None),
      api_get = (\<lambda>url params. Some (JObj [(''searchResults'', JArr [])]))\<rparr>"









text \<open>The key and the URL the loop of \<^verbatim>\<open>build_state_url_dict\<close> computes for one link.\<close>

definition link_key :: "node \<Rightarrow> string option" where
  "link_key link = map_option lower (node_string link)"

definition link_url :: "node \<Rightarrow> string option" where
  "link_url link = map_option (\<lambda>state_url. BASEURL @ state_url) (get_attr ''href'' link)"

definition after_index_fetch :: state where
  "after_index_fetch =
     snd (make_request_with_cache fixture_lib fixture_net ''https://www.nps.gov/index.htm''
            (fresh_process None))"

definition after_nearby_lookup :: state where
  "after_nearby_lookup = snd (get_nearby_places fixture_lib fixture_net isle_royale after_index_fetch)"

definition after_second_fetch :: state where
  "after_second_fetch =
     snd (make_request_with_cache fixture_lib (serving ''changed'' JNull)
            ''https://www.nps.gov/index.htm'' after_nearby_lookup)"

section \<open>The reference codec reads back what it prints\<close>




lemma hex_table: "\<forall>m \<in> set [0..<16]. hex_value (''0123456789abcdef'' ! m) = Some m"
  by code_simp

lemma hex_value_hex_digit: "hex_value (hex_digit k) = Some (k mod 16)"
proof -
  have "k mod 16 \<in> set [0..<16]" by simp
  then show ?thesis unfolding hex_digit_def using hex_table by blast
qed


lemma decode_str_escape:
  "decode_str (escape_char c @ s) = cons_result c (decode_str s)"
proof -
  define n where "n = (of_char c :: nat)"
  have n256: "n < 256" unfolding n_def by simp
  have c: "c = char_of n" unfolding n_def by simp
  consider "n = 34" | "n = 92" | "n = 8" | "n = 12" | "n = 10" | "n = 13" | "n = 9"
    | "32 \<le> n" "n \<le> 126" "n \<noteq> 34" "n \<noteq> 92"
    | "n \<notin> {34, 92, 8, 12, 10, 13, 9}" "\<not> (32 \<le> n \<and> n \<le> 126)"
    by auto
  then show ?thesis
  proof cases
    case 8
    have ne1: "c \<noteq> CHR 0x22" using 8 n_def by auto
    have ne2: "c \<noteq> CHR 0x5C" using 8 n_def by auto
    have "escape_char c = [c]" using 8 by (simp add: escape_char_def n_def [symmetric])
    then show ?thesis using ne1 ne2 8 by (simp add: n_def [symmetric])
  next
    case 9
    have e: "escape_char c = [CHR 0x5C, CHR ''u'', CHR ''0'', CHR ''0'', hex_digit (n div 16), hex_digit n]"
      using 9 by (simp add: escape_char_def n_def [symmetric])
    have "16 * (n div 16 mod 16) + n mod 16 = n" using n256 by simp
    moreover have "hex_value CHR ''0'' = Some 0" by (simp add: hex_value_def)
    ultimately show ?thesis
      by (simp add: e hex_value_hex_digit c [symmetric])
  qed (simp_all add: escape_char_def n_def [symmetric] unescape_def c; code_simp)+
qed


lemma decode_str_encoded:
  "decode_str (concat (map escape_char t) @ CHR 0x22 # rest) = Some (t, rest)"
  by (induction t) (simp_all add: decode_str_escape cons_result_def)

declare digits.simps [simp del]

lemma digit_char: "m < 10 \<Longrightarrow> (of_char (char_of (48 + m) :: char) :: nat) = 48 + m"
  by simp

lemma digits_not_Nil: "digits n \<noteq> []"
  by (subst digits.simps) simp

lemma digits_all: "list_all is_digit (digits n)"
proof (induction n rule: digits.induct)
  case (1 n)
  show ?case
  proof (cases "n < 10")
    case True
    then show ?thesis by (subst digits.simps) (simp add: is_digit_def)
  next
    case False
    have "n mod 10 < 10" by simp
    then have "is_digit (char_of (48 + n mod 10))" 
      unfolding is_digit_def by (simp only: digit_char) simp
    with False 1 show ?thesis by (subst digits.simps) simp
  qed
qed

lemma digits_value_snoc:
  "digits_value (ds @ [c]) = 10 * digits_value ds + (of_char c - 48)"
  by (simp add: digits_value_def)

lemma digits_value_digits: "digits_value (digits n) = n"
proof (induction n rule: digits.induct)
  case (1 n)
  show ?case
  proof (cases "n < 10")
    case True
    then show ?thesis by (subst digits.simps) (simp add: digits_value_def)
  next
    case False
    have "n mod 10 < 10" by simp
    then have "(of_char (char_of (48 + n mod 10) :: char) :: nat) - 48 = n mod 10"
      by (simp only: digit_char diff_add_inverse)
    with False 1 show ?thesis
      by (subst digits.simps) (simp add: digits_value_snoc)
  qed
qed

lemma digits_hd_zero: "hd (digits n) = CHR ''0'' \<longleftrightarrow> n = 0"
proof (induction n rule: digits.induct)
  case (1 n)
  show ?case
  proof (cases "n < 10")
    case True
    have "char_of (48 + n) = CHR ''0'' \<longleftrightarrow> (of_char (char_of (48 + n) :: char) :: nat) = of_char CHR ''0''"
      by (simp only: of_char_eq_iff)
    also have "\<dots> \<longleftrightarrow> n = 0" using True by (simp only: digit_char) simp
    finally show ?thesis using True by (subst digits.simps) simp
  next
    case False
    then have "hd (digits n) = hd (digits (n div 10))"
      by (subst digits.simps) (simp add: digits_not_Nil)
    with False 1 show ?thesis by simp
  qed
qed

lemma is_digit_minus: "\<not> is_digit CHR ''-''"
  by (simp add: is_digit_def)

lemma takeWhile_digits:
  "number_end rest \<Longrightarrow> takeWhile is_digit (digits n @ rest) = digits n"
  using digits_all [of n]
  by (cases rest) (simp_all add: number_end_def takeWhile_append2 list_all_iff takeWhile_append1)

lemma char_of_48: "char_of (48::nat) = CHR ''0''"
  by code_simp

lemma leading_digits:
  assumes "number_end rest"
  shows "(case digits n @ rest of
            [] \<Rightarrow> []
          | c # r' \<Rightarrow> if c = CHR ''0'' then [c] else takeWhile is_digit (digits n @ rest))
         = digits n"
proof -
  obtain c cs where d: "digits n = c # cs" using digits_not_Nil [of n] by (cases "digits n") auto
  show ?thesis
  proof (cases "n = 0")
    case True
    then have "digits n = ''0''" by (subst digits.simps) (simp add: char_of_48)
    then show ?thesis by simp
  next
    case False
    then have "c \<noteq> CHR ''0''" using digits_hd_zero [of n] d by simp
    then show ?thesis using takeWhile_digits [OF assms, of n] d by simp
  qed
qed

lemma digits_no_sign: "digits n @ rest = c # r \<Longrightarrow> c \<noteq> CHR ''-''"
  using digits_all [of n] digits_not_Nil [of n] is_digit_minus
  by (cases "digits n") auto

lemma decode_nat:
  assumes "number_end rest"
  shows "decode_int (digits n @ rest) = Some (int n, rest)"
proof -
  obtain c r where d: "digits n @ rest = c # r"
    using digits_not_Nil [of n] by (cases "digits n") auto
  then have "c \<noteq> CHR ''-''" by (rule digits_no_sign)
  then have neg: "(case digits n @ rest of [] \<Rightarrow> False | c # r \<Rightarrow> c = CHR ''-'') = False"
    using d by simp
  show ?thesis
    unfolding decode_int_def neg Let_def if_False leading_digits [OF assms]
    using assms digits_not_Nil [of n]
    by (cases rest) (simp_all add: number_end_def digits_value_digits)
qed

lemma decode_neg:
  assumes "number_end rest"
  shows "decode_int (CHR ''-'' # digits n @ rest) = Some (- int n, rest)"
proof -
  have neg: "(case CHR ''-'' # digits n @ rest of [] \<Rightarrow> False | c # r \<Rightarrow> c = CHR ''-'') = True"
    by simp
  show ?thesis
    unfolding decode_int_def neg Let_def if_True list.sel leading_digits [OF assms]
    using assms digits_not_Nil [of n]
    by (cases rest) (simp_all add: number_end_def digits_value_digits)
qed

lemma decode_int_encoded:
  assumes "number_end rest"
  shows "decode_int (encode_int i @ rest) = Some (i, rest)"
  using decode_nat [OF assms, of "nat i"] decode_neg [OF assms, of "nat (- i)"]
  by (simp add: encode_int_def)


lemma decodesD:
  "decodes v \<Longrightarrow> length (py_dumps v) \<le> n \<Longrightarrow> number_end rest \<Longrightarrow>
     decode_value n (py_dumps v @ rest) = Some (v, rest)"
  by (simp add: decodes_def)

lemma skip_ws_space [simp]: "skip_ws (CHR '' '' # s) = skip_ws s"
  by (simp add: skip_ws_def json_space_def)

lemma skip_ws_same: "\<not> json_space c \<Longrightarrow> skip_ws (c # s) = c # s"
  by (simp add: skip_ws_def)

lemma decode_value_space [simp]: "decode_value n (CHR '' '' # s) = decode_value n s"
  by (cases n) simp_all

lemma decode_items_space [simp]: "decode_items n acc (CHR '' '' # s) = decode_items n acc s"
  by (cases n) simp_all

lemma number_end_delims [simp]:
  "number_end (CHR '','' # s)" "number_end (CHR '']'' # s)" "number_end (CHR ''}'' # s)"
  "number_end []"
  by (simp_all add: number_end_def is_digit_def)

lemma skip_ws_delims [simp]:
  "skip_ws (CHR '','' # s) = CHR '','' # s" "skip_ws (CHR '']'' # s) = CHR '']'' # s"
  "skip_ws (CHR ''}'' # s) = CHR ''}'' # s" "skip_ws (CHR '':'' # s) = CHR '':'' # s"
  "skip_ws (CHR 0x22 # s) = CHR 0x22 # s" "skip_ws (CHR ''['' # s) = CHR ''['' # s"
  "skip_ws (CHR ''{'' # s) = CHR ''{'' # s" "skip_ws [] = []"
  by (simp_all add: skip_ws_def json_space_def)

lemma encode_int_start:
  "\<exists>c cs. encode_int i = c # cs \<and> (c = CHR ''-'' \<or> is_digit c)"
proof (cases "i < 0")
  case True
  then show ?thesis by (simp add: encode_int_def)
next
  case False
  obtain c cs where "digits (nat i) = c # cs"
    using digits_not_Nil [of "nat i"] by (cases "digits (nat i)") auto
  moreover from this have "is_digit c" using digits_all [of "nat i"] by simp
  ultimately show ?thesis using False by (simp add: encode_int_def)
qed

text \<open>The first character of a printed document: not white space, and no closing bracket.\<close>

lemma py_dumps_start:
  "\<exists>c cs. py_dumps v = c # cs \<and> \<not> json_space c \<and> c \<noteq> CHR '']'' \<and> c \<noteq> CHR ''}''"
proof (cases v)
  case (JNum i)
  obtain c cs where "encode_int i = c # cs" "c = CHR ''-'' \<or> is_digit c"
    using encode_int_start by blast
  then show ?thesis using JNum by (auto simp: json_space_def is_digit_def)
qed (auto simp: json_space_def encode_str_def)

lemma decodesI:
  assumes "\<And>m rest. length (py_dumps v) \<le> Suc m \<Longrightarrow> number_end rest \<Longrightarrow>
             decode_value (Suc m) (py_dumps v @ rest) = Some (v, rest)"
  shows "decodes v"
  unfolding decodes_def
proof (intro allI impI)
  fix n rest
  assume n: "length (py_dumps v) \<le> n" and r: "number_end rest"
  obtain c cs where "py_dumps v = c # cs" using py_dumps_start by blast
  with n obtain m where "n = Suc m" by (cases n) auto
  with n r assms show "decode_value n (py_dumps v @ rest) = Some (v, rest)" by simp
qed

lemma decodes_scalar:
  "decodes JNull" "decodes (JBool b)" "decodes (JStr t)"
  by (rule decodesI; simp add: skip_ws_def json_space_def expect_def
        encode_str_def decode_str_encoded)+

lemma decodes_num: "decodes (JNum i)"
proof (rule decodesI)
  fix m rest
  assume r: "number_end rest"
  obtain c cs where e: "encode_int i = c # cs" and c: "c = CHR ''-'' \<or> is_digit c"
    using encode_int_start by blast
  have "decode_int (c # cs @ rest) = Some (i, rest)"
    using decode_int_encoded [OF r, of i] e by simp
  moreover have "skip_ws (c # cs @ rest) = c # cs @ rest"
    using c by (auto simp: skip_ws_def json_space_def is_digit_def)
  moreover have "c \<notin> {CHR ''{'', CHR ''['', CHR 0x22, CHR ''n'', CHR ''t'', CHR ''f''}"
    using c by (auto simp: is_digit_def)
  ultimately show "decode_value (Suc m) (py_dumps (JNum i) @ rest) = Some (JNum i, rest)"
    using e by simp
qed

lemma decode_items_printed:
  assumes "\<And>x. x \<in> set xs \<Longrightarrow> decodes x" and "xs \<noteq> []"
    and "Suc (length (join_items (map py_dumps xs))) \<le> n"
  shows "decode_items n acc (join_items (map py_dumps xs) @ CHR '']'' # rest) = Some (acc @ xs, rest)"
  using assms
proof (induction xs arbitrary: n acc)
  case Nil
  then show ?case by simp
next
  case (Cons x xs)
  obtain m where n: "n = Suc m" using Cons.prems(3) by (cases n) auto
  have x: "decodes x" using Cons.prems(1) by simp
  show ?case
  proof (cases xs)
    case Nil
    have "decode_value m (py_dumps x @ CHR '']'' # rest) = Some (x, CHR '']'' # rest)"
      using Cons.prems(3) n Nil by (intro decodesD [OF x]) simp_all
    then show ?thesis using n Nil by simp
  next
    case (Cons y ys)
    have j: "join_items (map py_dumps (x # xs)) = py_dumps x @ '', '' @ join_items (map py_dumps xs)"
      using Cons by simp
    have "decode_value m (py_dumps x @ CHR '','' # CHR '' '' # join_items (map py_dumps xs) @ CHR '']'' # rest)
          = Some (x, CHR '','' # CHR '' '' # join_items (map py_dumps xs) @ CHR '']'' # rest)"
      using Cons.prems(3) n j by (intro decodesD [OF x]) simp_all
    moreover have "decode_items m (acc @ [x]) (join_items (map py_dumps xs) @ CHR '']'' # rest)
          = Some ((acc @ [x]) @ xs, rest)"
      using Cons.prems(1,3) n j Cons by (intro Cons.IH) simp_all
    ultimately show ?thesis using n j by simp
  qed
qed


lemma decode_pairs_space [simp]: "decode_pairs n acc (CHR '' '' # s) = decode_pairs n acc s"
  by (cases n) simp_all

lemma update_fresh_key: "k \<notin> fst ` set acc \<Longrightarrow> AList.update k v acc = acc @ [(k, v)]"
  by (induction acc) auto

lemma decode_pairs_key:
  "decode_pairs (Suc m) acc (encode_str k @ CHR '':'' # CHR '' '' # s) =
     (case decode_value m s of
        None \<Rightarrow> None
      | Some (v, r3) \<Rightarrow>
          (case skip_ws r3 of
             [] \<Rightarrow> None
           | c' # r4 \<Rightarrow>
               if c' = CHR '','' then decode_pairs m (AList.update k v acc) r4
               else if c' = CHR ''}'' then Some (AList.update k v acc, r4)
               else None))"
  by (simp add: encode_str_def decode_str_encoded)

lemma print_pair_text: "print_pair (k, v) @ s = encode_str k @ CHR '':'' # CHR '' '' # py_dumps v @ s"
  by (simp add: print_pair_def)

lemma decode_pairs_printed:
  assumes "\<And>kv. kv \<in> set d \<Longrightarrow> decodes (snd kv)" and "d \<noteq> []"
    and "distinct (map fst (acc @ d))"
    and "Suc (length (join_items (map print_pair d))) \<le> n"
  shows "decode_pairs n acc (join_items (map print_pair d) @ CHR ''}'' # rest) = Some (acc @ d, rest)"
  using assms
proof (induction d arbitrary: n acc)
  case Nil
  then show ?case by simp
next
  case (Cons kv d)
  obtain k v where kv: "kv = (k, v)" by (cases kv)
  obtain m where n: "n = Suc m" using Cons.prems(4) by (cases n) auto
  have v: "decodes v" using Cons.prems(1) kv by force
  have fresh: "AList.update k v acc = acc @ [(k, v)]"
    using Cons.prems(3) kv by (intro update_fresh_key) auto
  have lv: "length (py_dumps v) \<le> length (print_pair kv)"
    unfolding kv by (simp add: print_pair_def)
  show ?case
  proof (cases d)
    case Nil
    have "length (py_dumps v) \<le> m" using Cons.prems(4) n Nil lv by simp
    then have "decode_value m (py_dumps v @ CHR ''}'' # rest) = Some (v, CHR ''}'' # rest)"
      by (intro decodesD [OF v]) simp_all
    moreover have "join_items (map print_pair (kv # d)) @ CHR ''}'' # rest
          = encode_str k @ CHR '':'' # CHR '' '' # py_dumps v @ CHR ''}'' # rest"
      using Nil kv by (simp add: print_pair_text)
    ultimately show ?thesis unfolding n using fresh
      by (simp only: decode_pairs_key) (simp add: Nil kv)
  next
    case (Cons kv' d')
    have j: "join_items (map print_pair (kv # d)) = print_pair kv @ '', '' @ join_items (map print_pair d)"
      using Cons by simp
    have len: "length (print_pair kv) + length (join_items (map print_pair d)) + 2 \<le> m"
      using Cons.prems(4) j n by simp
    then have "length (py_dumps v) \<le> m" using lv by simp
    then have "decode_value m (py_dumps v @ CHR '','' # CHR '' '' # join_items (map print_pair d) @ CHR ''}'' # rest)
          = Some (v, CHR '','' # CHR '' '' # join_items (map print_pair d) @ CHR ''}'' # rest)"
      by (intro decodesD [OF v]) simp_all
    moreover have "Suc (length (join_items (map print_pair d))) \<le> m"
      using len by simp
    then have "decode_pairs m (acc @ [(k, v)]) (join_items (map print_pair d) @ CHR ''}'' # rest)
          = Some ((acc @ [(k, v)]) @ d, rest)"
      using Cons.prems(1,3) Cons kv by (intro Cons.IH) simp_all
    moreover have "join_items (map print_pair (kv # d)) @ CHR ''}'' # rest
          = encode_str k @ CHR '':'' # CHR '' '' # py_dumps v @ CHR '','' # CHR '' '' #
              join_items (map print_pair d) @ CHR ''}'' # rest"
      using j kv by (simp add: print_pair_text)
    ultimately show ?thesis unfolding n using fresh
      by (simp only: decode_pairs_key) (simp add: kv)
  qed
qed

lemma py_dumps_obj: "py_dumps (JObj d) = CHR ''{'' # join_items (map print_pair d) @ ''}''"
  by (simp add: print_pair_def [abs_def])

lemma join_items_start:
  assumes "xs \<noteq> []" and "\<And>x. x \<in> set xs \<Longrightarrow> \<exists>c cs. x = c # cs \<and> P c"
  shows "\<exists>c cs. join_items xs = c # cs \<and> P c"
proof -
  obtain x ys where xs: "xs = x # ys" using assms(1) by (cases xs) auto
  then obtain c cs where "x = c # cs" "P c" using assms(2) by force
  then show ?thesis using xs by (cases ys) auto
qed

theorem decodes_all: "wf_json v \<Longrightarrow> decodes v"
proof (induction v)
  case (JArr xs)
  have elems: "\<And>x. x \<in> set xs \<Longrightarrow> decodes x"
    using JArr by (simp add: list_all_iff)
  show ?case
  proof (rule decodesI)
    fix m rest
    assume len: "length (py_dumps (JArr xs)) \<le> Suc m"
    show "decode_value (Suc m) (py_dumps (JArr xs) @ rest) = Some (JArr xs, rest)"
    proof (cases "xs = []")
      case True
      then show ?thesis by simp
    next
      case False
      have "\<And>x. \<exists>c cs. py_dumps x = c # cs \<and> (\<not> json_space c \<and> c \<noteq> CHR '']'')"
        using py_dumps_start by blast
      then have "\<exists>c cs. join_items (map py_dumps xs) = c # cs \<and> (\<not> json_space c \<and> c \<noteq> CHR '']'')"
        using False by (intro join_items_start) auto
      then obtain c cs where s: "join_items (map py_dumps xs) = c # cs"
        "\<not> json_space c" "c \<noteq> CHR '']''" by blast
      have "decode_items m [] (join_items (map py_dumps xs) @ CHR '']'' # rest) = Some ([] @ xs, rest)"
        using len False by (intro decode_items_printed elems) simp_all
      then show ?thesis using s by (simp add: skip_ws_same)
    qed
  qed
next
  case (JObj d)
  have elems: "\<And>kv. kv \<in> set d \<Longrightarrow> decodes (snd kv)"
  proof -
    fix kv assume kv: "kv \<in> set d"
    then have "wf_json (snd kv)" using JObj.prems by (simp add: list_all_iff)
    moreover have "snd kv \<in> Basic_BNFs.snds kv" by (cases kv) simp
    ultimately show "decodes (snd kv)" using JObj.IH kv by blast
  qed
  have dist: "distinct (map fst ([] @ d))" using JObj.prems by simp
  show ?case
  proof (rule decodesI)
    fix m rest
    assume len: "length (py_dumps (JObj d)) \<le> Suc m"
    show "decode_value (Suc m) (py_dumps (JObj d) @ rest) = Some (JObj d, rest)"
    proof (cases "d = []")
      case True
      then show ?thesis by simp
    next
      case False
      have "\<exists>c cs. join_items (map print_pair d) = c # cs \<and> c = CHR 0x22"
        using False by (intro join_items_start) (auto simp: print_pair_def encode_str_def)
      then obtain cs where s: "join_items (map print_pair d) = CHR 0x22 # cs" by blast
      have "decode_pairs m [] (join_items (map print_pair d) @ CHR ''}'' # rest) = Some ([] @ d, rest)"
        using len False dist unfolding py_dumps_obj by (intro decode_pairs_printed elems) simp_all
      then show ?thesis unfolding py_dumps_obj using s by simp
    qed
  qed
qed (simp_all add: decodes_scalar decodes_num)

theorem py_loads_py_dumps: "wf_json v \<Longrightarrow> py_loads (py_dumps v) = Some v"
  using decodesD [OF decodes_all, of v "Suc (length (py_dumps v))" "[]"]
  by (simp add: py_loads_def)


lemma list_all_update:
  "list_all P acc \<Longrightarrow> P (k, v) \<Longrightarrow> list_all P (AList.update k v acc)"
  by (induction acc) auto

lemma wf_pairs_update: "wf_pairs acc \<Longrightarrow> wf_json v \<Longrightarrow> wf_pairs (AList.update k v acc)"
  by (simp add: wf_pairs_def distinct_update list_all_update)

lemma decoded_wf:
  "(\<forall>s v r. decode_value n s = Some (v, r) \<longrightarrow> wf_json v) \<and>
   (\<forall>s acc xs r. list_all wf_json acc \<longrightarrow> decode_items n acc s = Some (xs, r) \<longrightarrow>
        list_all wf_json xs) \<and>
   (\<forall>s acc d r. wf_pairs acc \<longrightarrow> decode_pairs n acc s = Some (d, r) \<longrightarrow> wf_pairs d)"
proof (induction n)
  case 0
  show ?case by simp
next
  case (Suc n)
  have v: "\<And>s v r. decode_value n s = Some (v, r) \<Longrightarrow> wf_json v" using Suc by blast
  have i: "\<And>s acc xs r. list_all wf_json acc \<Longrightarrow> decode_items n acc s = Some (xs, r) \<Longrightarrow>
        list_all wf_json xs" using Suc by blast
  have p: "\<And>s acc d r. wf_pairs acc \<Longrightarrow> decode_pairs n acc s = Some (d, r) \<Longrightarrow> wf_pairs d"
    using Suc by blast
  have p0: "\<And>s d r. decode_pairs n [] s = Some (d, r) \<Longrightarrow> wf_json (JObj d)"
    using p [of "[]"] by (simp add: wf_pairs_def)
  have i0: "\<And>s xs r. decode_items n [] s = Some (xs, r) \<Longrightarrow> wf_json (JArr xs)"
    using i [of "[]"] by simp
  have 1: "wf_json v" if "decode_value (Suc n) s = Some (v, r)" for s v r
    using that p0 i0
    by (auto split: list.splits if_splits)
  have 2: "list_all wf_json xs"
    if a: "list_all wf_json acc" and d: "decode_items (Suc n) acc s = Some (xs, r)" for s acc xs r
  proof -
    obtain x r1 where x: "decode_value n s = Some (x, r1)"
      using d by (cases "decode_value n s") auto
    then have ax: "list_all wf_json (acc @ [x])" using a v by simp
    obtain c r2 where c: "skip_ws r1 = c # r2"
      using d x by (cases "skip_ws r1") auto
    show ?thesis
    proof (cases "c = CHR '',''")
      case True
      then have "decode_items n (acc @ [x]) r2 = Some (xs, r)" using d x c by simp
      then show ?thesis using i ax by blast
    next
      case False
      then have "xs = acc @ [x]" using d x c by (auto split: if_splits)
      then show ?thesis using ax by simp
    qed
  qed
  have 3: "wf_pairs d" if a: "wf_pairs acc" and d: "decode_pairs (Suc n) acc s = Some (d, r)"
    for s acc d r
  proof -
    obtain q r0 where q: "skip_ws s = q # r0" using d by (cases "skip_ws s") auto
    have q2: "q = CHR 0x22" using d q by (auto split: if_splits)
    obtain k r1 where k: "decode_str r0 = Some (k, r1)"
      using d q q2 by (cases "decode_str r0") auto
    obtain c r2 where c: "skip_ws r1 = c # r2" using d q q2 k by (cases "skip_ws r1") auto
    have c2: "c = CHR '':''" using d q q2 k c by (auto split: if_splits)
    obtain x r3 where x: "decode_value n r2 = Some (x, r3)"
      using d q q2 k c c2 by (cases "decode_value n r2") auto
    obtain c' r4 where c': "skip_ws r3 = c' # r4"
      using d q q2 k c c2 x by (cases "skip_ws r3") auto
    have u: "wf_pairs (AList.update k x acc)" using a v x by (intro wf_pairs_update) auto
    show ?thesis
    proof (cases "c' = CHR '',''")
      case True
      then have "decode_pairs n (AList.update k x acc) r4 = Some (d, r)"
        using d q q2 k c c2 x c' by simp
      then show ?thesis using p u by blast
    next
      case False
      then have "d = AList.update k x acc" using d q q2 k c c2 x c' by (auto split: if_splits)
      then show ?thesis using u by simp
    qed
  qed
  show ?case using 1 2 3 by blast
qed

lemma decode_value_wf: "decode_value n s = Some (v, r) \<Longrightarrow> wf_json v"
  using decoded_wf [of n] by blast

theorem py_loads_wf:
  assumes "py_loads t = Some v"
  shows "wf_json v"
proof -
  obtain r where "decode_value (Suc (length t)) t = Some (v, r)"
    using assms unfolding py_loads_def
    by (cases "decode_value (Suc (length t)) t") (auto split: if_splits simp del: decode_value.simps)
  then show ?thesis by (rule decode_value_wf)
qed

theorem python_lib_contract: "json_contract (python_lib parser key)"
  by (simp add: json_contract_def python_lib_def py_loads_py_dumps py_loads_wf)

section \<open>The cache store: proofs\<close>

lemma open_cache_wf:
  assumes "json_contract L"
  shows "wf_json (open_cache L s)"
  using assms unfolding json_contract_def open_cache_def
  by (auto split: option.splits)

lemma wf_json_update:
  assumes "wf_json (JObj d)" and "wf_json v"
  shows "wf_json (JObj (AList.update k v d))"
  using assms by (simp add: distinct_update list_all_update)

lemma open_after_save:
  assumes "json_contract L" and "wf_json v"
  shows "open_cache L (save_cache L v s) = v"
  using assms by (simp add: json_contract_def open_cache_def save_cache_def)

lemma make_request_with_cache_global:
  "CACHE_DICT (snd (make_request_with_cache L N url s)) = CACHE_DICT s"
  by (simp add: make_request_with_cache_def save_cache_def Let_def
      split: json.splits option.splits)

lemma fetch_all_global: "CACHE_DICT (fetch_all L N urls s) = CACHE_DICT s"
  by (induction urls arbitrary: s) (simp_all add: make_request_with_cache_global)

text \<open>
  Claim C9. On a cache hit (the URL is a key of the store that \<^verbatim>\<open>open_cache\<close> loads),
  \<^verbatim>\<open>make_request_with_cache\<close> returns the stored value without calling
  \<^verbatim>\<open>save_cache\<close>: the number of saves and the contents of the cache file are as before.
\<close>

theorem cache_hit_no_save:
  assumes "open_cache L s = JObj d" and "map_of d url = Some v"
  shows "fst (make_request_with_cache L N url s) = Inr v \<and>
         saves (snd (make_request_with_cache L N url s)) = saves s \<and>
         cache_file (snd (make_request_with_cache L N url s)) = cache_file s"
  using assms by (simp add: make_request_with_cache_def)

theorem cache_hit_no_save_witness:
  "open_cache demo_lib (fresh_process (Some (py_dumps (JObj [(''u'', JStr ''A'')]))))
     = JObj [(''u'', JStr ''A'')] \<and>
   map_of [(''u'', JStr ''A'')] ''u'' = Some (JStr ''A'') \<and>
   fst (make_request_with_cache demo_lib offline ''u''
          (fresh_process (Some (py_dumps (JObj [(''u'', JStr ''A'')]))))) = Inr (JStr ''A'') \<and>
   saves (snd (make_request_with_cache demo_lib offline ''u''
          (fresh_process (Some (py_dumps (JObj [(''u'', JStr ''A'')])))))) =
     saves (fresh_process (Some (py_dumps (JObj [(''u'', JStr ''A'')])))) \<and>
   cache_file (snd (make_request_with_cache demo_lib offline ''u''
          (fresh_process (Some (py_dumps (JObj [(''u'', JStr ''A'')])))))) =
     cache_file (fresh_process (Some (py_dumps (JObj [(''u'', JStr ''A'')]))))"
proof -
  have h1: "open_cache demo_lib (fresh_process (Some (py_dumps (JObj [(''u'', JStr ''A'')]))))
     = JObj [(''u'', JStr ''A'')]"
    by code_simp
  have h2: "map_of [(''u'', JStr ''A'')] ''u'' = Some (JStr ''A'')"
    by simp
  from cache_hit_no_save [OF h1 h2, of offline] h1 h2 show ?thesis by blast
qed

text \<open>
  Claim C10. \<^verbatim>\<open>get_nearby_places\<close> looks only at the module-level \<^verbatim>\<open>CACHE_DICT\<close>,
  which no call of \<^verbatim>\<open>make_request_with_cache\<close> fills: in a fresh process, after any
  run of cached fetches, it is still empty, and the first nearby-places lookup issues the
  request to the places API whatever the cache file holds.
\<close>

theorem first_nearby_lookup_requests:
  "CACHE_DICT (fetch_all L N urls (fresh_process f)) = [] \<and>
   requests (snd (get_nearby_places L N site_object (fetch_all L N urls (fresh_process f)))) =
     requests (fetch_all L N urls (fresh_process f)) @
       [Request nearby_url (nearby_params L site_object)]"
proof -
  have g: "CACHE_DICT (fetch_all L N urls (fresh_process f)) = []"
    by (simp add: fetch_all_global fresh_process_def)
  then show ?thesis
    by (simp add: get_nearby_places_def make_request_def save_cache_def Let_def
        split: option.splits)
qed

text \<open>The same at a cache file that has the zipcode as a key.\<close>

theorem first_nearby_lookup_requests_witness:
  "open_cache demo_lib (fresh_process (Some (py_dumps (JObj [(''49931'', JObj [])]))))
     = JObj [(''49931'', JObj [])] \<and>
   requests (snd (get_nearby_places demo_lib offline
       isle_royale
       (fetch_all demo_lib offline [] (fresh_process (Some (py_dumps (JObj [(''49931'', JObj [])]))))))) =
     requests (fetch_all demo_lib offline [] (fresh_process (Some (py_dumps (JObj [(''49931'', JObj [])]))))) @
       [Request nearby_url (nearby_params demo_lib
          isle_royale)]"
proof -
  have h: "open_cache demo_lib (fresh_process (Some (py_dumps (JObj [(''49931'', JObj [])]))))
     = JObj [(''49931'', JObj [])]"
    by code_simp
  from first_nearby_lookup_requests
    [of demo_lib offline "[]" "Some (py_dumps (JObj [(''49931'', JObj [])]))" isle_royale] h
  show ?thesis by blast
qed

text \<open>
  Claim C2, amended. When a call of \<^verbatim>\<open>make_request_with_cache\<close> returns, it has issued
  one network request if the URL was not yet a key of the store and none if it was; a
  second call for the same URL, whatever the network then answers, returns the same
  content and changes nothing: no request, no save. The JSON library is assumed to read
  back what it wrote.
\<close>

theorem second_fetch_hits_cache:
  assumes "json_contract L" and "make_request_with_cache L N1 url s = (Inr v, s1)"
  shows "\<exists>d. open_cache L s = JObj d \<and>
           requests s1 = (if map_of d url = None then requests s @ [Request url []] else requests s) \<and>
           make_request_with_cache L N2 url s1 = (Inr v, s1)"
proof -
  obtain d where d: "open_cache L s = JObj d"
    using assms(2) by (cases "open_cache L s") (simp_all add: make_request_with_cache_def)
  show ?thesis
  proof (cases "map_of d url")
    case (Some w)
    then have "v = w" "s1 = s" using assms(2) d by (simp_all add: make_request_with_cache_def)
    then show ?thesis using d Some by (simp add: make_request_with_cache_def)
  next
    case None
    then obtain body where b: "http_get N1 url = Some body"
      using assms(2) d by (cases "http_get N1 url") (simp_all add: make_request_with_cache_def Let_def)
    let ?d' = "AList.update url (JStr body) d"
    have s1: "s1 = save_cache L (JObj ?d') (s\<lparr>requests := requests s @ [Request url []]\<rparr>)"
      and v: "v = JStr body"
      using assms(2) d None b by (auto simp: make_request_with_cache_def Let_def)
    have "wf_json (JObj d)" using open_cache_wf [OF assms(1), of s] d by simp
    then have "wf_json (JObj ?d')" by (intro wf_json_update) simp_all
    then have o: "open_cache L s1 = JObj ?d'" unfolding s1 by (rule open_after_save [OF assms(1)])
    have "map_of ?d' url = Some (JStr body)" by (simp add: update_conv')
    then have "make_request_with_cache L N2 url s1 = (Inr v, s1)"
      using o v by (simp add: make_request_with_cache_def)
    moreover have "requests s1 = requests s @ [Request url []]"
      unfolding s1 by (simp add: save_cache_def)
    ultimately show ?thesis using d None by simp
  qed
qed

text \<open>A miss on an empty store, then a hit although the network now answers \<open>B\<close>.\<close>

theorem second_fetch_hits_cache_witness:
  "json_contract demo_lib \<and>
   make_request_with_cache demo_lib (serving ''A'' JNull) ''u'' (fresh_process None) =
     (Inr (JStr ''A''),
      \<lparr>cache_file = Some (py_dumps (JObj [(''u'', JStr ''A'')])), CACHE_DICT = [],
       requests = [Request ''u'' []], saves = 1\<rparr>) \<and>
   make_request_with_cache demo_lib (serving ''B'' JNull) ''u''
      \<lparr>cache_file = Some (py_dumps (JObj [(''u'', JStr ''A'')])), CACHE_DICT = [],
       requests = [Request ''u'' []], saves = 1\<rparr> =
     (Inr (JStr ''A''),
      \<lparr>cache_file = Some (py_dumps (JObj [(''u'', JStr ''A'')])), CACHE_DICT = [],
       requests = [Request ''u'' []], saves = 1\<rparr>)"
proof -
  have c: "json_contract demo_lib"
    unfolding demo_lib_def by (rule python_lib_contract)
  have h: "make_request_with_cache demo_lib (serving ''A'' JNull) ''u'' (fresh_process None) =
     (Inr (JStr ''A''),
      \<lparr>cache_file = Some (py_dumps (JObj [(''u'', JStr ''A'')])), CACHE_DICT = [],
       requests = [Request ''u'' []], saves = 1\<rparr>)"
    by code_simp
  from second_fetch_hits_cache [OF c h, of "serving ''B'' JNull"] c h show ?thesis by blast
qed

text \<open>
  Claim C2 as stated fails where the URL is already in the store: both calls return the
  stored content and no network request is issued at all, not exactly one.
\<close>

theorem two_fetches_of_stored_url_request_nothing:
  "fst (make_request_with_cache demo_lib (serving ''B'' JNull) ''u''
          (fresh_process (Some (py_dumps (JObj [(''u'', JStr ''A'')]))))) = Inr (JStr ''A'') \<and>
   fst (make_request_with_cache demo_lib (serving ''B'' JNull) ''u''
          (snd (make_request_with_cache demo_lib (serving ''B'' JNull) ''u''
             (fresh_process (Some (py_dumps (JObj [(''u'', JStr ''A'')]))))))) = Inr (JStr ''A'') \<and>
   requests (snd (make_request_with_cache demo_lib (serving ''B'' JNull) ''u''
          (snd (make_request_with_cache demo_lib (serving ''B'' JNull) ''u''
             (fresh_process (Some (py_dumps (JObj [(''u'', JStr ''A'')])))))))) = []"
  by code_simp



section \<open>Site extraction and nearby places: proofs\<close>

lemma find_text_error: "find_text p r = Inl e \<Longrightarrow> e = AttributeError"
  by (auto simp: find_text_def split: option.splits)

lemma find_text_lacks: "find_text p r = Inl AttributeError \<longleftrightarrow> lacks p r"
  by (auto simp: find_text_def lacks_def split: option.splits)

lemma find_text_found:
  "find_text p r = Inr t \<Longrightarrow> \<exists>b x. r = Some b \<and> find_first p b = Some x \<and> t = get_text x"
  by (auto simp: find_text_def split: option.splits)

lemma site_of_soup_error: "site_of_soup soup = Inl e \<Longrightarrow> e = AttributeError"
  by (auto simp: site_of_soup_def Let_def split: sum.splits dest: find_text_error)

lemma site_of_soup_needs:
  assumes "lacks p block"
    and "(p, block) \<in> {(has_class ''Hero-title'', find_first (has_class ''Hero-titleContainer clearfix'') soup),
        (has_attr ''itemprop'' ''addressLocality'', find_first (has_class ''vcard'') soup),
        (has_attr ''itemprop'' ''addressRegion'', find_first (has_class ''vcard'') soup),
        (has_class ''postal-code'', find_first (has_class ''vcard'') soup),
        (has_class ''tel'', find_first (has_class ''vcard'') soup)}"
  shows "site_of_soup soup = Inl AttributeError"
proof (cases "site_of_soup soup")
  case (Inl e)
  then show ?thesis using site_of_soup_error by blast
next
  case (Inr site)
  have "find_text p block = Inl AttributeError" using assms(1) by (simp add: find_text_lacks)
  then have False using Inr assms(2)
    by (auto simp: site_of_soup_def Let_def split: sum.splits)
  then show ?thesis ..
qed

lemma site_of_soup_phone:
  "site_of_soup soup = Inr site \<Longrightarrow>
     \<exists>t. find_text (has_class ''tel'') (find_first (has_class ''vcard'') soup) = Inr t \<and>
         phone site = strip t"
  by (auto simp: site_of_soup_def Let_def split: sum.splits)

lemma get_site_instance_fetched:
  "make_request_with_cache L N url s = (Inr (JStr html), s1) \<Longrightarrow>
     get_site_instance L N url s = (site_of_soup (BeautifulSoup L html), s1)"
  by (simp add: get_site_instance_def)

text \<open>
  Claim C3, amended. The phone is not optional: when the contact block of the detail page
  lacks the phone marker, \<^verbatim>\<open>get_site_instance\<close> fails with an \<^verbatim>\<open>AttributeError\<close> and
  returns no site. When it returns a site, the phone is the stripped text of the phone
  marker, so it is empty only where that text is blank.
\<close>

theorem phone_marker_required:
  assumes "make_request_with_cache L N url s = (Inr (JStr html), s1)"
    and "footer = find_first (has_class ''vcard'') (BeautifulSoup L html)"
  shows "(lacks (has_class ''tel'') footer \<longrightarrow>
            get_site_instance L N url s = (Inl AttributeError, s1)) \<and>
         (\<forall>site. get_site_instance L N url s = (Inr site, s1) \<longrightarrow>
            (\<exists>f tel. footer = Some f \<and> find_first (has_class ''tel'') f = Some tel \<and>
               phone site = strip (get_text tel)))"
proof (intro conjI impI allI)
  assume "lacks (has_class ''tel'') footer"
  then have "site_of_soup (BeautifulSoup L html) = Inl AttributeError"
    using assms(2) by (intro site_of_soup_needs [where p = "has_class ''tel''" and block = footer]) simp_all
  then show "get_site_instance L N url s = (Inl AttributeError, s1)"
    using get_site_instance_fetched [OF assms(1)] by simp
next
  fix site
  assume "get_site_instance L N url s = (Inr site, s1)"
  then have "site_of_soup (BeautifulSoup L html) = Inr site"
    using get_site_instance_fetched [OF assms(1)] by simp
  then obtain t where "find_text (has_class ''tel'') footer = Inr t" "phone site = strip t"
    using site_of_soup_phone assms(2) by blast
  then show "\<exists>f tel. footer = Some f \<and> find_first (has_class ''tel'') f = Some tel \<and>
               phone site = strip (get_text tel)"
    using find_text_found by blast
qed

text \<open>The fixture page without a phone marker.\<close>

theorem phone_marker_required_witness:
  "make_request_with_cache fixture_lib (serving ''no phone'' JNull) ''u'' (fresh_process None) =
     (Inr (JStr ''no phone''),
      snd (make_request_with_cache fixture_lib (serving ''no phone'' JNull) ''u'' (fresh_process None))) \<and>
   lacks (has_class ''tel'') (find_first (has_class ''vcard'') (BeautifulSoup fixture_lib ''no phone'')) \<and>
   get_site_instance fixture_lib (serving ''no phone'' JNull) ''u'' (fresh_process None) =
     (Inl AttributeError,
      snd (make_request_with_cache fixture_lib (serving ''no phone'' JNull) ''u'' (fresh_process None)))"
proof -
  have h1: "make_request_with_cache fixture_lib (serving ''no phone'' JNull) ''u'' (fresh_process None) =
     (Inr (JStr ''no phone''),
      snd (make_request_with_cache fixture_lib (serving ''no phone'' JNull) ''u'' (fresh_process None)))"
    by code_simp
  have h2: "lacks (has_class ''tel'')
      (find_first (has_class ''vcard'') (BeautifulSoup fixture_lib ''no phone''))"
    by code_simp
  from phone_marker_required [OF h1 refl] h1 h2 show ?thesis by blast
qed

text \<open>
  Claim C3 as stated fails: on a detail page that lacks only the phone marker no site with
  an empty phone is returned, the call raises.
\<close>

theorem missing_phone_marker_fails:
  "fst (get_site_instance fixture_lib (serving ''no phone'' JNull)
          ''https://www.nps.gov/isro/index.htm'' (fresh_process None)) = Inl AttributeError"
  by code_simp

text \<open>
  Claim C4. \<^verbatim>\<open>get_site_instance\<close> fails and returns no site when the page lacks the
  postal-code marker, the name marker, or any other of the five required markers; when it
  lacks only the category marker, it returns the site with the category
  \<open>No category\<close>.
\<close>

theorem category_is_the_only_soft_fail:
  assumes "make_request_with_cache L N url s = (Inr (JStr html), s1)"
    and "header = find_first (has_class ''Hero-titleContainer clearfix'') (BeautifulSoup L html)"
    and "footer = find_first (has_class ''vcard'') (BeautifulSoup L html)"
  shows "(lacks (has_class ''postal-code'') footer \<longrightarrow>
            get_site_instance L N url s = (Inl AttributeError, s1)) \<and>
         (lacks (has_class ''Hero-title'') header \<longrightarrow>
            get_site_instance L N url s = (Inl AttributeError, s1)) \<and>
         (lacks (has_attr ''itemprop'' ''addressLocality'') footer \<longrightarrow>
            get_site_instance L N url s = (Inl AttributeError, s1)) \<and>
         (lacks (has_attr ''itemprop'' ''addressRegion'') footer \<longrightarrow>
            get_site_instance L N url s = (Inl AttributeError, s1)) \<and>
         (lacks (has_class ''tel'') footer \<longrightarrow>
            get_site_instance L N url s = (Inl AttributeError, s1)) \<and>
         (\<forall>title locality region postal tel.
            lacks (has_class ''Hero-designation'') header \<and>
            find_text (has_class ''Hero-title'') header = Inr title \<and>
            find_text (has_attr ''itemprop'' ''addressLocality'') footer = Inr locality \<and>
            find_text (has_attr ''itemprop'' ''addressRegion'') footer = Inr region \<and>
            find_text (has_class ''postal-code'') footer = Inr postal \<and>
            find_text (has_class ''tel'') footer = Inr tel \<longrightarrow>
            get_site_instance L N url s =
              (Inr \<lparr>category = ''No category'', name = strip title,
                    address = locality @ '', '' @ region, zipcode = strip postal,
                    phone = strip tel\<rparr>, s1))"
proof -
  have fails: "get_site_instance L N url s = (Inl AttributeError, s1)"
    if "site_of_soup (BeautifulSoup L html) = Inl AttributeError"
    using that get_site_instance_fetched [OF assms(1)] by simp
  have 1: "lacks (has_class ''postal-code'') footer \<longrightarrow>
            get_site_instance L N url s = (Inl AttributeError, s1)"
    using assms(3)
    by (auto intro!: fails site_of_soup_needs [where p = "has_class ''postal-code''" and block = footer])
  have 2: "lacks (has_class ''Hero-title'') header \<longrightarrow>
            get_site_instance L N url s = (Inl AttributeError, s1)"
    using assms(2)
    by (auto intro!: fails site_of_soup_needs [where p = "has_class ''Hero-title''" and block = header])
  have 3: "lacks (has_attr ''itemprop'' ''addressLocality'') footer \<longrightarrow>
            get_site_instance L N url s = (Inl AttributeError, s1)"
    using assms(3)
    by (auto intro!: fails
        site_of_soup_needs [where p = "has_attr ''itemprop'' ''addressLocality''" and block = footer])
  have 4: "lacks (has_attr ''itemprop'' ''addressRegion'') footer \<longrightarrow>
            get_site_instance L N url s = (Inl AttributeError, s1)"
    using assms(3)
    by (auto intro!: fails
        site_of_soup_needs [where p = "has_attr ''itemprop'' ''addressRegion''" and block = footer])
  have 5: "lacks (has_class ''tel'') footer \<longrightarrow>
            get_site_instance L N url s = (Inl AttributeError, s1)"
    using assms(3)
    by (auto intro!: fails site_of_soup_needs [where p = "has_class ''tel''" and block = footer])
  have 6: "get_site_instance L N url s =
              (Inr \<lparr>category = ''No category'', name = strip title,
                    address = locality @ '', '' @ region, zipcode = strip postal,
                    phone = strip tel\<rparr>, s1)"
    if "lacks (has_class ''Hero-designation'') header"
      and "find_text (has_class ''Hero-title'') header = Inr title"
      and "find_text (has_attr ''itemprop'' ''addressLocality'') footer = Inr locality"
      and "find_text (has_attr ''itemprop'' ''addressRegion'') footer = Inr region"
      and "find_text (has_class ''postal-code'') footer = Inr postal"
      and "find_text (has_class ''tel'') footer = Inr tel"
    for title locality region postal tel
  proof -
    have "find_text (has_class ''Hero-designation'') header = Inl AttributeError"
      using that(1) by (simp add: find_text_lacks)
    then have "site_of_soup (BeautifulSoup L html) =
        Inr \<lparr>category = ''No category'', name = strip title,
             address = locality @ '', '' @ region, zipcode = strip postal, phone = strip tel\<rparr>"
      using that(2-6) assms(2,3) by (simp add: site_of_soup_def Let_def)
    then show ?thesis using get_site_instance_fetched [OF assms(1)] by simp
  qed
  show ?thesis using 1 2 3 4 5 6 by blast
qed

text \<open>The fixture page that lacks only the category marker.\<close>

theorem category_is_the_only_soft_fail_witness:
  "make_request_with_cache fixture_lib (serving ''no category'' JNull) ''u'' (fresh_process None) =
     (Inr (JStr ''no category''),
      snd (make_request_with_cache fixture_lib (serving ''no category'' JNull) ''u'' (fresh_process None))) \<and>
   lacks (has_class ''Hero-designation'')
     (find_first (has_class ''Hero-titleContainer clearfix'') (BeautifulSoup fixture_lib ''no category'')) \<and>
   find_text (has_class ''Hero-title'')
     (find_first (has_class ''Hero-titleContainer clearfix'') (BeautifulSoup fixture_lib ''no category''))
     = Inr ''North Country'' \<and>
   find_text (has_attr ''itemprop'' ''addressLocality'')
     (find_first (has_class ''vcard'') (BeautifulSoup fixture_lib ''no category'')) = Inr ''Houghton'' \<and>
   find_text (has_attr ''itemprop'' ''addressRegion'')
     (find_first (has_class ''vcard'') (BeautifulSoup fixture_lib ''no category'')) = Inr ''MI'' \<and>
   find_text (has_class ''postal-code'')
     (find_first (has_class ''vcard'') (BeautifulSoup fixture_lib ''no category'')) = Inr ''49331'' \<and>
   find_text (has_class ''tel'')
     (find_first (has_class ''vcard'') (BeautifulSoup fixture_lib ''no category'')) = Inr ''(616) 319-7906'' \<and>
   get_site_instance fixture_lib (serving ''no category'' JNull) ''u'' (fresh_process None) =
     (Inr \<lparr>category = ''No category'', name = strip ''North Country'',
           address = ''Houghton'' @ '', '' @ ''MI'', zipcode = strip ''49331'',
           phone = strip ''(616) 319-7906''\<rparr>,
      snd (make_request_with_cache fixture_lib (serving ''no category'' JNull) ''u'' (fresh_process None)))"
proof -
  have f: "make_request_with_cache fixture_lib (serving ''no category'' JNull) ''u'' (fresh_process None) =
     (Inr (JStr ''no category''),
      snd (make_request_with_cache fixture_lib (serving ''no category'' JNull) ''u'' (fresh_process None)))"
    by code_simp
  have d: "lacks (has_class ''Hero-designation'')
     (find_first (has_class ''Hero-titleContainer clearfix'') (BeautifulSoup fixture_lib ''no category''))"
    by code_simp
  have t: "find_text (has_class ''Hero-title'')
     (find_first (has_class ''Hero-titleContainer clearfix'') (BeautifulSoup fixture_lib ''no category''))
     = Inr ''North Country''"
    by code_simp
  have l: "find_text (has_attr ''itemprop'' ''addressLocality'')
     (find_first (has_class ''vcard'') (BeautifulSoup fixture_lib ''no category'')) = Inr ''Houghton''"
    by code_simp
  have r: "find_text (has_attr ''itemprop'' ''addressRegion'')
     (find_first (has_class ''vcard'') (BeautifulSoup fixture_lib ''no category'')) = Inr ''MI''"
    by code_simp
  have z: "find_text (has_class ''postal-code'')
     (find_first (has_class ''vcard'') (BeautifulSoup fixture_lib ''no category'')) = Inr ''49331''"
    by code_simp
  have p: "find_text (has_class ''tel'')
     (find_first (has_class ''vcard'') (BeautifulSoup fixture_lib ''no category'')) = Inr ''(616) 319-7906''"
    by code_simp
  from category_is_the_only_soft_fail [OF f refl refl] d t l r z p
  have "get_site_instance fixture_lib (serving ''no category'' JNull) ''u'' (fresh_process None) =
     (Inr \<lparr>category = ''No category'', name = strip ''North Country'',
           address = ''Houghton'' @ '', '' @ ''MI'', zipcode = strip ''49331'',
           phone = strip ''(616) 319-7906''\<rparr>,
      snd (make_request_with_cache fixture_lib (serving ''no category'' JNull) ''u'' (fresh_process None)))"
    by blast
  with f d t l r z p show ?thesis by (intro conjI)
qed





section \<open>Traversal, region index and the life of a cache key: proofs\<close>







lemma links_loop_last_wins:
  "links_loop links acc = Inr d \<Longrightarrow>
     (\<forall>before a after. links = before @ a # after \<longrightarrow>
        (\<exists>k u. link_key a = Some k \<and> link_url a = Some u \<and>
           (Some k \<notin> link_key ` set after \<longrightarrow> map_of d k = Some u))) \<and>
     (\<forall>k. Some k \<notin> link_key ` set links \<longrightarrow> map_of d k = map_of acc k)"
proof (induction links arbitrary: acc)
  case Nil
  then show ?case by simp
next
  case (Cons link links)
  obtain href where h: "get_attr ''href'' link = Some href"
    using Cons.prems by (cases "get_attr ''href'' link") auto
  obtain label where t: "node_string link = Some label"
    using Cons.prems h by (cases "node_string link") auto
  let ?acc = "AList.update (lower label) (BASEURL @ href) acc"
  have rest: "links_loop links ?acc = Inr d" using Cons.prems h t by simp
  note IH = Cons.IH [OF rest]
  have key: "link_key link = Some (lower label)" "link_url link = Some (BASEURL @ href)"
    using h t by (simp_all add: link_key_def link_url_def)
  have 1: "\<exists>k u. link_key a = Some k \<and> link_url a = Some u \<and>
           (Some k \<notin> link_key ` set after \<longrightarrow> map_of d k = Some u)"
    if "link # links = before @ a # after" for before a after
  proof (cases before)
    case Nil
    then have a: "a = link" "after = links" using that by simp_all
    have "map_of d (lower label) = Some (BASEURL @ href)"
      if "Some (lower label) \<notin> link_key ` set links"
      using IH that by (simp add: update_conv')
    then show ?thesis using a key by auto
  next
    case (Cons b before')
    then have "links = before' @ a # after" using that by simp
    then show ?thesis using IH by blast
  qed
  have 2: "map_of d k = map_of acc k" if "Some k \<notin> link_key ` set (link # links)" for k
  proof -
    have "k \<noteq> lower label" using that key by auto
    moreover have "map_of d k = map_of ?acc k" using IH that by auto
    ultimately show ?thesis by (simp add: update_conv')
  qed
  show ?case using 1 2 by blast
qed

lemma lower_Michigan: "lower ''Michigan'' = lower ''michigan''"
  by code_simp

text \<open>
  Claim C8, amended. Every link of the navigation list has a display text and an href, and
  \<^verbatim>\<open>build_state_url_dict\<close> maps the lower-cased text to \<^verbatim>\<open>BASEURL\<close> followed by
  the href, unless a later link has the same lower-cased text: then the later link's
  entry replaces it. The lookup by the lower-cased input gives the same for
  \<open>Michigan\<close> and \<open>michigan\<close>.
\<close>

theorem region_index_last_link_wins:
  assumes "build_state_url_dict L N s = (Inr state_dict, s1)"
  shows "\<exists>html links.
           make_request_with_cache L N (BASEURL @ ''/index.htm'') s = (Inr (JStr html), s1) \<and>
           search_links (BeautifulSoup L html) = Inr links \<and>
           (\<forall>before a after. links = before @ a # after \<longrightarrow>
              (\<exists>label href. node_string a = Some label \<and> get_attr ''href'' a = Some href \<and>
                 (Some (lower label) \<notin> link_key ` set after \<longrightarrow>
                    map_of state_dict (lower label) = Some (BASEURL @ href)))) \<and>
           lookup_state state_dict ''Michigan'' = lookup_state state_dict ''michigan''"
proof -
  obtain pg s2 where f: "make_request_with_cache L N (BASEURL @ ''/index.htm'') s = (pg, s2)"
    by (cases "make_request_with_cache L N (BASEURL @ ''/index.htm'') s")
  obtain html where pg: "pg = Inr (JStr html)"
    using assms f by (auto simp: build_state_url_dict_def split: sum.splits json.splits)
  obtain links where l: "search_links (BeautifulSoup L html) = Inr links"
    using assms f pg by (auto simp: build_state_url_dict_def split: sum.splits)
  have loop: "links_loop links [] = Inr state_dict" and s: "s2 = s1"
    using assms f pg l by (simp_all add: build_state_url_dict_def)
  have "\<exists>label href. node_string a = Some label \<and> get_attr ''href'' a = Some href \<and>
                 (Some (lower label) \<notin> link_key ` set after \<longrightarrow>
                    map_of state_dict (lower label) = Some (BASEURL @ href))"
    if "links = before @ a # after" for before a after
  proof -
    from links_loop_last_wins [OF loop] that obtain k u where
      "link_key a = Some k" "link_url a = Some u"
      "Some k \<notin> link_key ` set after \<longrightarrow> map_of state_dict k = Some u" by blast
    then show ?thesis by (auto simp: link_key_def link_url_def)
  qed
  moreover have "lookup_state state_dict ''Michigan'' = lookup_state state_dict ''michigan''"
    by (simp add: lookup_state_def lower_Michigan)
  ultimately show ?thesis using f pg l s by blast
qed

text \<open>The fixture index page with its one link.\<close>

theorem region_index_last_link_wins_witness:
  "build_state_url_dict fixture_lib fixture_net (fresh_process None) =
     (Inr [(''michigan'', ''https://www.nps.gov/state/mi/index.htm'')],
      snd (build_state_url_dict fixture_lib fixture_net (fresh_process None))) \<and>
   (\<exists>html links.
      make_request_with_cache fixture_lib fixture_net (BASEURL @ ''/index.htm'') (fresh_process None) =
        (Inr (JStr html), snd (build_state_url_dict fixture_lib fixture_net (fresh_process None))) \<and>
      search_links (BeautifulSoup fixture_lib html) = Inr links \<and>
      (\<forall>before a after. links = before @ a # after \<longrightarrow>
         (\<exists>label href. node_string a = Some label \<and> get_attr ''href'' a = Some href \<and>
            (Some (lower label) \<notin> link_key ` set after \<longrightarrow>
               map_of [(''michigan'', ''https://www.nps.gov/state/mi/index.htm'')] (lower label) =
                 Some (BASEURL @ href)))) \<and>
      lookup_state [(''michigan'', ''https://www.nps.gov/state/mi/index.htm'')] ''Michigan'' =
        lookup_state [(''michigan'', ''https://www.nps.gov/state/mi/index.htm'')] ''michigan'')"
proof -
  have h: "build_state_url_dict fixture_lib fixture_net (fresh_process None) =
     (Inr [(''michigan'', ''https://www.nps.gov/state/mi/index.htm'')],
      snd (build_state_url_dict fixture_lib fixture_net (fresh_process None)))"
    by code_simp
  from region_index_last_link_wins [OF h] h show ?thesis by (intro conjI)
qed

text \<open>
  Claim C8 as stated fails for a link that a later link repeats up to case: the key of the
  first link is bound to the second link's URL.
\<close>

theorem earlier_link_with_same_name_is_lost:
  "search_links (fixture_parser ''index twice'') =
     Inr [Tag ''a'' [] [(''href'', ''/state/mi/index.htm'')] [NavigableString ''Michigan''],
          Tag ''a'' [] [(''href'', ''/state/xx/index.htm'')] [NavigableString ''MICHIGAN'']] \<and>
   fst (build_state_url_dict fixture_lib (serving ''index twice'' JNull) (fresh_process None)) =
     Inr [(''michigan'', ''https://www.nps.gov/state/xx/index.htm'')] \<and>
   map_of [(''michigan'', ''https://www.nps.gov/state/xx/index.htm'')] (lower ''Michigan'') \<noteq>
     Some (BASEURL @ ''/state/mi/index.htm'')"
  by code_simp

text \<open>
  Claim C1 at a failing run. A page is fetched and written to the cache file; the first
  nearby-places lookup then saves the module-level dictionary, which never held the page:
  the page's key is gone from the file. A second fetch of the same URL asks the network
  again and binds the key to what the network now serves.
\<close>

theorem nearby_save_drops_fetched_pages:
  "open_cache fixture_lib after_index_fetch =
     JObj [(''https://www.nps.gov/index.htm'', JStr ''index'')] \<and>
   open_cache fixture_lib after_nearby_lookup =
     JObj [(''49931'', JObj [(''searchResults'', JArr [])])] \<and>
   open_cache fixture_lib after_second_fetch =
     JObj [(''49931'', JObj [(''searchResults'', JArr [])]),
           (''https://www.nps.gov/index.htm'', JStr ''changed'')]"
  by code_simp

end
